theory Spec2Isabelle
  imports Complex_Main
begin

section \<open>Python string operations used by the logger\<close>

text \<open>
  Responses and commands are Python \<open>str\<close> values, modelled as \<open>string\<close> (a list of
  8-bit characters). The operations below are the ones the source applies to them:
  \<open>str.startswith\<close>, the substring test \<open>x in s\<close>, \<open>str.strip()\<close>,
  \<open>str.splitlines()\<close> and \<open>" ".join(...)\<close>.
\<close>

fun startswith :: "string \<Rightarrow> string \<Rightarrow> bool" where
  "startswith s [] = True"
| "startswith [] (c # cs) = False"
| "startswith (x # xs) (c # cs) = (x = c \<and> startswith xs cs)"

text \<open>\<open>contains sub s\<close> is Python's \<open>sub in s\<close> on strings: \<open>sub\<close> occurs in \<open>s\<close>
  as a contiguous substring.\<close>

fun contains :: "string \<Rightarrow> string \<Rightarrow> bool" where
  "contains sub [] = (sub = [])"
| "contains sub (c # cs) = (startswith (c # cs) sub \<or> contains sub cs)"

text \<open>The characters below code point 256 for which Python's \<open>str.isspace()\<close> holds;
  \<open>str.strip()\<close> removes them from both ends.\<close>

definition isspace :: "char \<Rightarrow> bool" where
  "isspace c = (c \<in> {CHR 0x09, CHR 0x0A, CHR 0x0B, CHR 0x0C, CHR 0x0D,
                      CHR 0x1C, CHR 0x1D, CHR 0x1E, CHR 0x1F, CHR 0x20, CHR 0x85, CHR 0xA0})"

definition strip :: "string \<Rightarrow> string" where
  "strip s = rev (dropWhile isspace (rev (dropWhile isspace s)))"

text \<open>The line boundaries of \<open>str.splitlines()\<close> below code point 256; \<open>\r\n\<close> counts
  as one boundary.\<close>

definition is_linebreak :: "char \<Rightarrow> bool" where
  "is_linebreak c = (c \<in> {CHR 0x0A, CHR 0x0B, CHR 0x0C, CHR 0x0D,
                           CHR 0x1C, CHR 0x1D, CHR 0x1E, CHR 0x85})"

text \<open>\<open>splitlines_acc cur s\<close> splits \<open>s\<close>, with \<open>cur\<close> the reversed text of the line
  being read. A boundary closes the current line, also when it is empty; the end of the
  text closes it only when it is not empty.\<close>

fun splitlines_acc :: "string \<Rightarrow> string \<Rightarrow> string list" where
  "splitlines_acc cur [] = (if cur = [] then [] else [rev cur])"
| "splitlines_acc cur [c] = (if is_linebreak c then [rev cur] else [rev (c # cur)])"
| "splitlines_acc cur (c # d # cs) =
     (if c = CHR 0x0D \<and> d = CHR 0x0A then rev cur # splitlines_acc [] cs
      else if is_linebreak c then rev cur # splitlines_acc [] (d # cs)
      else splitlines_acc (c # cur) (d # cs))"

definition splitlines :: "string \<Rightarrow> string list" where
  "splitlines s = splitlines_acc [] s"

fun join :: "string \<Rightarrow> string list \<Rightarrow> string" where
  "join sep [] = []"
| "join sep [x] = x"
| "join sep (x # y # ys) = x @ sep @ join sep (y # ys)"

section \<open>dynamic\_parser.py: signal quality\<close>

text \<open>
  \<open>calculate_signal_quality(rsrp, rssi, rsrq, sinr)\<close>. The arguments are numbers
  (the parser passes \<open>int\<close>, \<open>int\<close>, \<open>float\<close>, \<open>int\<close>); they are only compared
  with constants, so they are modelled as \<open>real\<close>. The four local variables of the source
  are the four component functions; the RSRQ component reads \<open>rssi\<close> in its second
  test, as the source does. The result is the sum of the components divided by 4
  (true division).
\<close>

definition rsrp_quality :: "real \<Rightarrow> real" where
  "rsrp_quality rsrp =
     (if rsrp \<ge> -84 then 40
      else if rsrp \<ge> -102 then 30
      else if rsrp \<ge> -111 then 20
      else 10)"

definition rssi_quality :: "real \<Rightarrow> real" where
  "rssi_quality rssi =
     (if rssi \<ge> -65 then 40
      else if rssi \<ge> -75 then 30
      else if rssi \<ge> -85 then 20
      else 10)"

definition rsrq_quality :: "real \<Rightarrow> real \<Rightarrow> real" where
  "rsrq_quality rsrq rssi =
     (if rsrq \<ge> -5 then 40
      else if rssi \<ge> -6 then 30
      else 10)"

definition sinr_quality :: "real \<Rightarrow> real" where
  "sinr_quality sinr =
     (if sinr \<ge> 12.5 then 40
      else if sinr \<ge> 10 then 30
      else if sinr \<ge> 7 then 20
      else 10)"

definition calculate_signal_quality :: "real \<Rightarrow> real \<Rightarrow> real \<Rightarrow> real \<Rightarrow> real" where
  "calculate_signal_quality rsrp rssi rsrq sinr =
     (rsrp_quality rsrp + rssi_quality rssi + rsrq_quality rsrq rssi + sinr_quality sinr) / 4"

section \<open>dynamic\_logging.py: the serial port\<close>

text \<open>
  The modem is the environment. \<open>dev k\<close> is what the exchange made after \<open>k\<close>
  earlier writes to the port reads and decodes: \<open>Some text\<close>, the decoded bytes that
  arrived before the timeout
  (empty when none arrived), or \<open>None\<close> when reading or decoding raises
  \<open>SerialException\<close> or \<open>UnicodeDecodeError\<close>, which \<open>com_port_read_write\<close>
  turns into the return value \<open>None\<close>. A run of the program fixes one such \<open>dev\<close>;
  the theorems hold for every \<open>dev\<close>.

  The port keeps what was written to it, one entry per \<open>port.write\<close>. The timeout
  argument of the source only bounds how long \<open>readall\<close> waits and is part of what
  \<open>dev\<close> answers. Messages to the \<open>logging\<close> module and \<open>time.sleep\<close> are not
  part of the model.
\<close>

type_synonym modem = "nat \<Rightarrow> string option"

record port =
  written :: "string list"

definition wire :: "string \<Rightarrow> string" where
  "wire command = command @ [CHR 0x0D, CHR 0x0A]"

definition com_port_read_write :: "modem \<Rightarrow> port \<Rightarrow> string \<Rightarrow> string option \<times> port" where
  "com_port_read_write dev port command =
     (map_option strip (dev (length (written port))),
      port\<lparr>written := written port @ [wire command]\<rparr>)"

subsection \<open>Global configuration and command vocabulary\<close>

definition TIMES_RETRY :: int where
  "TIMES_RETRY = 15"


definition signal_commands :: "string list" where
  "signal_commands = [''AT+CESQ'', ''AT#SGACT=1,0'', ''AT#SGACT=1,1'']"

definition nw_eps_reg_status :: string where
  "nw_eps_reg_status = ''AT+CEREG?''"

definition nw_reg_status :: string where
  "nw_reg_status = ''AT+CREG?''"

definition tcp_connect_commands :: "string list" where
  \<open>tcp_connect_commands = [''AT#SGACT?'', ''AT#SD=1,0,7,"echo.u-blox.com",0,0,1'']\<close>

definition message_to_server :: "string list" where
  "message_to_server = [''AT#SSEND=1'', ''TCP_TEST_OK'', [CHR 0x1A]]"

definition socket_commands :: "string list" where
  "socket_commands = [''AT#SI'', ''AT#SS'']"

definition msg_in_response :: string where
  "msg_in_response = ''TCP_TEST_OK''"

definition message_from_server :: string where
  "message_from_server = ''AT#SRECV=1,1500''"

definition rf_status_command :: string where
  "rf_status_command = ''AT#RFSTS''"

definition cops_check_command :: string where
  "cops_check_command = ''AT+COPS?''"

definition flight_mode_commands :: "string list" where
  "flight_mode_commands = [''AT+CFUN=1'', ''AT+CFUN=4'']"

definition pump_dummy_msg :: string where
  "pump_dummy_msg =
      ''aasdgajgfsdfhgafdsakjfgadskjfgiweuryaioweuryiuwyfhaksjdbvdsmbvkdshakfh'' @
      ''daklsfhklahfksdfhakdashfklsdhfkasdfkshalkfhafklhdsafdksjahfkdashfklahf'' @
      ''dklsajfhkasdhfahieuwryioqyeifofiufbvyiyviyvqioiqoviuytvqiobyvqotbvyqtv'' @
      ''yqoityvqoitbvqtvbytebvqityvetbvyitvybtvqiytqboitvyotvyqityqiwebvotyibw'' @
      ''evytibvweytiwytvibakhksgdkjasj'' @ [CHR 0x1A]"

subsection \<open>configure\_sim\_module\<close>

text \<open>
  The first \<open>for\<close> loop of \<open>configure_sim_module\<close>. The result is \<open>False\<close> when
  the loop left the function through \<open>return False\<close> and \<open>True\<close> when it ran to its
  end. An exchange that returned \<open>None\<close> takes neither branch and the loop goes on.
  The list \<open>config_responses\<close> is only passed to the debug log and is left out.
\<close>

fun config_loop :: "modem \<Rightarrow> port \<Rightarrow> string list \<Rightarrow> bool \<times> port" where
  "config_loop dev port [] = (True, port)"
| "config_loop dev port (command # rest) =
     (let (cfg_response, port1) = com_port_read_write dev port command
      in case cfg_response of
           None \<Rightarrow> config_loop dev port1 rest
         | Some r \<Rightarrow> if contains ''OK'' r then config_loop dev port1 rest
                     else (False, port1))"

text \<open>
  The second loop, \<open>for attempt in range(max_retries)\<close>; the argument is the number of
  attempts left. \<open>Some True\<close> is \<open>return True\<close>; when the attempts are used up the
  function falls off its end and Python returns \<open>None\<close>.
\<close>

fun registration_loop :: "modem \<Rightarrow> port \<Rightarrow> nat \<Rightarrow> bool option \<times> port" where
  "registration_loop dev port 0 = (None, port)"
| "registration_loop dev port (Suc attempts) =
     (let (cops_response, port1) = com_port_read_write dev port cops_check_command
      in case cops_response of
           None \<Rightarrow> registration_loop dev port1 attempts
         | Some r \<Rightarrow> if contains ''8'' r then (Some True, port1)
                     else registration_loop dev port1 attempts)"

text \<open>\<open>range(max_retries)\<close> has \<open>nat max_retries\<close> elements: none when
  \<open>max_retries\<close> is negative.\<close>

definition configure_sim_module ::
  "modem \<Rightarrow> port \<Rightarrow> string list \<Rightarrow> int \<Rightarrow> bool option \<times> port" where
  "configure_sim_module dev com_port config_commands max_retries =
     (case config_loop dev com_port config_commands of
        (False, port1) \<Rightarrow> (Some False, port1)
      | (True, port1) \<Rightarrow> registration_loop dev port1 (nat max_retries))"

text \<open>Python's truth value of the result, as the callers test it with
  \<open>if modem_configured\<close>: \<open>None\<close> and \<open>False\<close> are false.\<close>

definition truthy :: "bool option \<Rightarrow> bool" where
  "truthy r = (r = Some True)"

subsection \<open>pump\_data\_to\_server\<close>

text \<open>
  The \<open>while max_msg_count\<close> loop. The count is a Python \<open>int\<close> and the loop runs
  while it is not zero, so a negative count never ends the loop by itself; the function
  is therefore partial, and \<open>None\<close> stands for a loop that does not return.
\<close>

partial_function (option) pump_loop :: "modem \<Rightarrow> port \<Rightarrow> int \<Rightarrow> port option" where
  "pump_loop dev port max_msg_count =
     (if max_msg_count = 0 then Some port
      else (let (send_response, port1) = com_port_read_write dev port ''AT#SSEND=1'';
                (msg_response, port2) = com_port_read_write dev port1 pump_dummy_msg
            in case msg_response of
                 None \<Rightarrow> pump_loop dev port2 (max_msg_count - 1)
               | Some r \<Rightarrow> if \<not> contains ''OK'' r then Some port2
                           else pump_loop dev port2 (max_msg_count - 1)))"

definition pump_data_to_server :: "modem \<Rightarrow> port \<Rightarrow> int \<Rightarrow> port option" where
  \<open>pump_data_to_server dev port max_msg_count =
     (let (context_response, port1) = com_port_read_write dev port ''AT#SGACT=1,1'';
          (server_response, port2) =
             com_port_read_write dev port1 ''AT#SD=1,0,7,"echo.u-blox.com",0,0,1''
      in case pump_loop dev port2 max_msg_count of
           None \<Rightarrow> None
         | Some port3 \<Rightarrow> Some (snd (com_port_read_write dev port3 ''AT#SH=1'')))\<close>

subsection \<open>tcp\_connection\_test, check\_network\_status, check\_rf\_status\<close>

text \<open>A \<open>for\<close> loop that sends each command and only logs the response.\<close>

fun send_all :: "modem \<Rightarrow> port \<Rightarrow> string list \<Rightarrow> port" where
  "send_all dev port [] = port"
| "send_all dev port (command # rest) =
     send_all dev (snd (com_port_read_write dev port command)) rest"

text \<open>The loop over \<open>sock_commands\<close>: the first line of each response that starts with
  \<open>#SI: 1\<close> or \<open>#SS: 1\<close> is appended to \<open>message_response\<close>.\<close>

fun sock_loop :: "modem \<Rightarrow> port \<Rightarrow> string list \<Rightarrow> string list \<Rightarrow> string list \<times> port" where
  "sock_loop dev port [] message_response = (message_response, port)"
| "sock_loop dev port (command # rest) message_response =
     (let (sock_response, port1) = com_port_read_write dev port command
      in case sock_response of
           None \<Rightarrow> sock_loop dev port1 rest message_response
         | Some r \<Rightarrow>
             (case find (\<lambda>line. startswith line ''#SI: 1'' \<or> startswith line ''#SS: 1'')
                        (splitlines r) of
                None \<Rightarrow> sock_loop dev port1 rest message_response
              | Some line \<Rightarrow> sock_loop dev port1 rest (message_response @ [line])))"

definition tcp_connection_test ::
  "modem \<Rightarrow> port \<Rightarrow> string list \<Rightarrow> string list \<Rightarrow> string \<Rightarrow> string list \<Rightarrow> string \<times> port" where
  "tcp_connection_test dev port tcp_commands msg_to_commands msg_from_command sock_commands =
     (let port1 = send_all dev port tcp_commands;
          port2 = send_all dev port1 msg_to_commands;
          (response, port3) = com_port_read_write dev port2 msg_from_command;
          message_response =
            (case response of
               Some r \<Rightarrow> ''#MSG:'' # (case find (contains msg_in_response) (splitlines r) of
                                         None \<Rightarrow> [] | Some line \<Rightarrow> [line])
             | None \<Rightarrow> [''#MSG: None'']);
          (message_response1, port4) = sock_loop dev port3 sock_commands message_response
      in (join '' '' message_response1, port4))"

definition check_network_status :: "modem \<Rightarrow> port \<Rightarrow> string \<Rightarrow> string \<times> port" where
  "check_network_status dev port command =
     (let (nw_stat_response, port1) = com_port_read_write dev port command;
          response =
            (case nw_stat_response of
               Some r \<Rightarrow> filter (\<lambda>line. startswith line ''+CEREG:'' \<or> startswith line ''+CREG:''
                                        \<or> startswith line ''+COPS:'') (splitlines r)
             | None \<Rightarrow> [])
      in (join '' '' response, port1))"

definition check_rf_status :: "modem \<Rightarrow> port \<Rightarrow> string \<Rightarrow> string \<times> port" where
  "check_rf_status dev port command =
     (let (rf_status_responses, port1) = com_port_read_write dev port command;
          response =
            (case rf_status_responses of
               Some r \<Rightarrow> filter (\<lambda>line. startswith line ''#RFSTS:'') (splitlines r)
             | None \<Rightarrow> [])
      in (join '' '' response, port1))"

subsection \<open>The two operating loops\<close>

text \<open>
  A session owns the port and the modem log file, opened in append mode: the
  file is the list of the texts written to it, in order. \<open>clock k\<close> is the text that
  the \<open>k\<close>-th call of \<open>time.strftime("%Y-%m-%d %H:%M:%S")\<close> returns, and
  \<open>clock_reads\<close> counts the calls made so far.
\<close>

type_synonym clock = "nat \<Rightarrow> string"

record session =
  com_port :: port
  clock_reads :: nat
  modem_log_file :: "string list"

definition pumping_marker :: string where
  "pumping_marker = '':'#Pumping Data To Server...'' @ [CHR 0x27, CHR 0x0A]"

definition flight_marker :: string where
  "flight_marker = '':'#Flight Mode Active...'' @ [CHR 0x27, CHR 0x0A]"

text \<open>
  The body of \<open>for command in phone_mode_commands\<close> in
  \<open>pump_modem_data_with_flight_mode\<close>. In the pumping branch the clock is read three
  times: for the line written to the file and for the two messages that log the start
  and the end of the burst. The burst is called with the budget 5, for which it always
  returns.
\<close>

definition flight_phase :: "clock \<Rightarrow> modem \<Rightarrow> session \<Rightarrow> string \<Rightarrow> session option" where
  "flight_phase clock dev s command =
     (let (phone_mode_response, port1) = com_port_read_write dev (com_port s) command
      in if contains ''1'' command then
           (let (cops_response, port2) = com_port_read_write dev port1 cops_check_command
            in case cops_response of
                 None \<Rightarrow> Some (s\<lparr>com_port := port2\<rparr>)
               | Some r \<Rightarrow>
                   if contains ''8'' r then
                     (let timestamp = clock (clock_reads s)
                      in case pump_data_to_server dev port2 5 of
                           None \<Rightarrow> None
                         | Some port3 \<Rightarrow>
                             Some \<lparr>com_port = port3, clock_reads = clock_reads s + 3,
                                   modem_log_file =
                                     modem_log_file s @ [timestamp @ pumping_marker]\<rparr>)
                   else Some (s\<lparr>com_port := port2\<rparr>))
         else if contains ''4'' command then
           (let timestamp = clock (clock_reads s)
            in Some \<lparr>com_port = port1, clock_reads = clock_reads s + 1,
                     modem_log_file = modem_log_file s @ [timestamp @ flight_marker]\<rparr>)
         else Some (s\<lparr>com_port := port1\<rparr>))"

fun flight_for :: "clock \<Rightarrow> modem \<Rightarrow> session \<Rightarrow> string list \<Rightarrow> session option" where
  "flight_for clock dev s [] = Some s"
| "flight_for clock dev s (command # rest) =
     (case flight_phase clock dev s command of
        None \<Rightarrow> None
      | Some s1 \<Rightarrow> flight_for clock dev s1 rest)"

text \<open>The \<open>while True\<close> loop never exits; \<open>flight_while clock dev n s cmds\<close> is the
  session after \<open>n\<close> passes of its body.\<close>

fun flight_while :: "clock \<Rightarrow> modem \<Rightarrow> nat \<Rightarrow> session \<Rightarrow> string list \<Rightarrow> session option" where
  "flight_while clock dev 0 s phone_mode_commands = Some s"
| "flight_while clock dev (Suc n) s phone_mode_commands =
     (case flight_for clock dev s phone_mode_commands of
        None \<Rightarrow> None
      | Some s1 \<Rightarrow> flight_while clock dev n s1 phone_mode_commands)"

text \<open>The body of the \<open>while True\<close> loop of \<open>read_and_log_modem_data\<close>.\<close>

definition telemetry_pass ::
  "clock \<Rightarrow> modem \<Rightarrow> session \<Rightarrow> string \<Rightarrow> string \<Rightarrow> string \<Rightarrow> session" where
  "telemetry_pass clock dev s rf_command nw_eps_command nw_command =
     (let (tcp_status, port1) =
            tcp_connection_test dev (com_port s) tcp_connect_commands message_to_server
              message_from_server socket_commands;
          (nw_eps_status, port2) = check_network_status dev port1 nw_eps_command;
          (nw_status, port3) = check_network_status dev port2 nw_command;
          (rf_status, port4) = check_rf_status dev port3 rf_command;
          timestamp = clock (clock_reads s)
      in \<lparr>com_port = port4, clock_reads = clock_reads s + 1,
          modem_log_file =
            modem_log_file s @ [timestamp @ '':'' @ rf_status @ '':'' @ tcp_status @ '':''
                                @ nw_eps_status @ '':'' @ nw_status @ [CHR 0x0A]]\<rparr>)"

fun telemetry_while ::
  "clock \<Rightarrow> modem \<Rightarrow> nat \<Rightarrow> session \<Rightarrow> string \<Rightarrow> string \<Rightarrow> string \<Rightarrow> session" where
  "telemetry_while clock dev 0 s rf_command nw_eps_command nw_command = s"
| "telemetry_while clock dev (Suc n) s rf_command nw_eps_command nw_command =
     telemetry_while clock dev n
       (telemetry_pass clock dev s rf_command nw_eps_command nw_command)
       rf_command nw_eps_command nw_command"

text \<open>
  The two entry points. Both configure the modem first and go on only when the result is
  true; they then send the signal commands, whose responses are only logged, and enter
  their loop. \<open>passes\<close> is the number of passes of the endless loop that are observed,
  and \<open>s\<close> holds the port and what the log file contained when it was opened.
\<close>

definition pump_modem_data_with_flight_mode ::
  "clock \<Rightarrow> modem \<Rightarrow> nat \<Rightarrow> session \<Rightarrow> string list \<Rightarrow> string list \<Rightarrow> string list
   \<Rightarrow> session option" where
  "pump_modem_data_with_flight_mode clock dev passes s sig_commands config_commands
     phone_mode_commands =
     (let (modem_configured, port1) =
            configure_sim_module dev (com_port s) config_commands TIMES_RETRY
      in if truthy modem_configured
         then flight_while clock dev passes (s\<lparr>com_port := send_all dev port1 sig_commands\<rparr>)
                phone_mode_commands
         else Some (s\<lparr>com_port := port1\<rparr>))"

definition read_and_log_modem_data ::
  "clock \<Rightarrow> modem \<Rightarrow> nat \<Rightarrow> session \<Rightarrow> string list \<Rightarrow> string \<Rightarrow> string \<Rightarrow> string
   \<Rightarrow> string list \<Rightarrow> session" where
  "read_and_log_modem_data clock dev passes s sig_commands rf_command nw_eps_command
     nw_command config_commands =
     (let (modem_configured, port1) =
            configure_sim_module dev (com_port s) config_commands TIMES_RETRY
      in if truthy modem_configured
         then telemetry_while clock dev passes (s\<lparr>com_port := send_all dev port1 sig_commands\<rparr>)
                rf_command nw_eps_command nw_command
         else s\<lparr>com_port := port1\<rparr>)"

subsection \<open>Observations used in the theorems\<close>

text \<open>
  \<open>reply dev port k\<close> is what the \<open>k\<close>-th next call of \<open>com_port_read_write\<close> on
  this port returns. \<open>rejected\<close> and \<open>registered\<close> are the two tests the source makes
  on a returned response: a text without the success marker \<open>OK\<close>, and a text with the
  attachment indicator \<open>8\<close>.
\<close>

definition reply :: "modem \<Rightarrow> port \<Rightarrow> nat \<Rightarrow> string option" where
  "reply dev port k = map_option strip (dev (length (written port) + k))"

definition rejected :: "string option \<Rightarrow> bool" where
  "rejected response = (case response of None \<Rightarrow> False | Some r \<Rightarrow> \<not> contains ''OK'' r)"

definition registered :: "string option \<Rightarrow> bool" where
  "registered response = (case response of None \<Rightarrow> False | Some r \<Rightarrow> contains ''8'' r)"

section \<open>Facts about the string operations\<close>

lemma startswith_single: "startswith s [c] = (s \<noteq> [] \<and> hd s = c)"
  by (cases s) auto

lemma contains_single: "contains [c] s = (c \<in> set s)"
  by (induction s) (auto simp: startswith_single)

lemma set_dropWhile_keep: "\<not> P x \<Longrightarrow> (x \<in> set (dropWhile P xs)) = (x \<in> set xs)"
  by (induction xs) auto

lemma set_strip_keep: "\<not> isspace c \<Longrightarrow> (c \<in> set (strip s)) = (c \<in> set s)"
  by (simp add: strip_def set_dropWhile_keep)

lemma digit8_not_space: "\<not> isspace (CHR ''8'')"
  by (simp add: isspace_def)

lemma contains8_strip: "contains ''8'' (strip raw) = (CHR ''8'' \<in> set raw)"
  by (simp add: contains_single set_strip_keep digit8_not_space)

lemma splitlines_acc_no_linebreak:
  "\<forall>c \<in> set cur. \<not> is_linebreak c \<Longrightarrow> line \<in> set (splitlines_acc cur s)
   \<Longrightarrow> \<forall>c \<in> set line. \<not> is_linebreak c"
proof (induction cur s rule: splitlines_acc.induct)
  case (1 cur)
  from "1.prems"(2) have "line = rev cur" by (simp split: if_splits)
  with "1.prems"(1) show ?case by simp
next
  case (2 cur c)
  from "2.prems"(2) have "line = rev cur \<or> (\<not> is_linebreak c \<and> line = rev (c # cur))"
    by (simp split: if_splits)
  with "2.prems"(1) show ?case by auto
next
  case (3 cur c d cs)
  have closed: "\<forall>c \<in> set (rev cur). \<not> is_linebreak c"
    using "3.prems"(1) by simp
  have empty: "\<forall>c \<in> set ([]::string). \<not> is_linebreak c" by simp
  show ?case
  proof (cases "c = CHR 0x0D \<and> d = CHR 0x0A")
    case True
    then have "splitlines_acc cur (c # d # cs) = rev cur # splitlines_acc [] cs"
      by simp
    with "3.prems"(2) have "line = rev cur \<or> line \<in> set (splitlines_acc [] cs)"
      by simp
    then show ?thesis
    proof
      assume "line = rev cur"
      with closed show ?thesis by simp
    next
      assume "line \<in> set (splitlines_acc [] cs)"
      with "3.IH"(1) [OF True empty] show ?thesis .
    qed
  next
    case False
    note nocrlf = this
    show ?thesis
    proof (cases "is_linebreak c")
      case True
      with nocrlf have "splitlines_acc cur (c # d # cs) = rev cur # splitlines_acc [] (d # cs)"
        by (simp only: splitlines_acc.simps if_False if_True)
      with "3.prems"(2) have "line = rev cur \<or> line \<in> set (splitlines_acc [] (d # cs))"
        by simp
      then show ?thesis
      proof
        assume "line = rev cur"
        with closed show ?thesis by simp
      next
        assume "line \<in> set (splitlines_acc [] (d # cs))"
        with "3.IH"(2) [OF nocrlf True empty] show ?thesis .
      qed
    next
      case False
      with nocrlf have "splitlines_acc cur (c # d # cs) = splitlines_acc (c # cur) (d # cs)"
        by (simp only: splitlines_acc.simps if_False if_True)
      with "3.prems"(2) have mem: "line \<in> set (splitlines_acc (c # cur) (d # cs))"
        by simp
      have "\<forall>x \<in> set (c # cur). \<not> is_linebreak x"
        using False "3.prems"(1) by simp
      from "3.IH"(3) [OF nocrlf False this mem] show ?thesis .
    qed
  qed
qed

lemma splitlines_no_linebreak:
  "line \<in> set (splitlines s) \<Longrightarrow> \<forall>c \<in> set line. \<not> is_linebreak c"
  unfolding splitlines_def by (rule splitlines_acc_no_linebreak [of "[]"]) auto

lemma join_no_linebreak:
  "\<forall>c \<in> set sep. \<not> is_linebreak c \<Longrightarrow> \<forall>x \<in> set xs. \<forall>c \<in> set x. \<not> is_linebreak c
   \<Longrightarrow> \<forall>c \<in> set (join sep xs). \<not> is_linebreak c"
  by (induction sep xs rule: join.induct) auto

lemma join_space_no_linebreak:
  "\<forall>x \<in> set xs. \<forall>c \<in> set x. \<not> is_linebreak c
   \<Longrightarrow> \<forall>c \<in> set (join '' '' xs). \<not> is_linebreak c"
  by (rule join_no_linebreak) (simp_all add: is_linebreak_def)

lemma find_in_set: "find P xs = Some x \<Longrightarrow> x \<in> set xs"
  by (induction xs) (auto split: if_splits)

section \<open>Facts about the port\<close>

lemma com_port_read_write_eq:
  "com_port_read_write dev port command
   = (reply dev port 0, port\<lparr>written := written port @ [wire command]\<rparr>)"
  by (simp add: com_port_read_write_def reply_def)

lemma reply_after_write:
  "reply dev (port\<lparr>written := written port @ ws\<rparr>) k = reply dev port (length ws + k)"
  by (simp add: reply_def add.assoc)

lemma port_written_twice:
  "(port\<lparr>written := written port @ xs\<rparr>)\<lparr>written := written port @ xs @ ys\<rparr>
   = port\<lparr>written := written port @ xs @ ys\<rparr>"
  by simp

lemma send_all_eq:
  "send_all dev port cmds = port\<lparr>written := written port @ map wire cmds\<rparr>"
  by (induction cmds arbitrary: port) (simp_all add: com_port_read_write_eq)

section \<open>The configuration loop\<close>

lemma config_loop_all_accepted:
  "\<forall>j<length cmds. \<not> rejected (reply dev port j)
   \<Longrightarrow> config_loop dev port cmds = (True, port\<lparr>written := written port @ map wire cmds\<rparr>)"
proof (induction cmds arbitrary: port)
  case Nil
  show ?case by simp
next
  case (Cons c cs)
  let ?p1 = "port\<lparr>written := written port @ [wire c]\<rparr>"
  from Cons.prems have first: "\<not> rejected (reply dev port 0)" by auto
  from Cons.prems have "\<forall>j<length cs. \<not> rejected (reply dev ?p1 j)"
    by (auto simp: reply_after_write)
  then have ih: "config_loop dev ?p1 cs = (True, ?p1\<lparr>written := written ?p1 @ map wire cs\<rparr>)"
    by (rule Cons.IH)
  from first ih show ?case
    by (auto simp: com_port_read_write_eq rejected_def split: option.splits)
qed


lemma config_loop_skips_none:
  "reply dev port 0 = None
   \<Longrightarrow> config_loop dev port (c # cs)
       = config_loop dev (port\<lparr>written := written port @ [wire c]\<rparr>) cs"
  by (simp add: com_port_read_write_eq)

section \<open>The registration loop\<close>

lemma registration_loop_step:
  "registration_loop dev port (Suc n)
   = (if registered (reply dev port 0)
      then (Some True, port\<lparr>written := written port @ [wire cops_check_command]\<rparr>)
      else registration_loop dev (port\<lparr>written := written port @ [wire cops_check_command]\<rparr>) n)"
  by (simp add: com_port_read_write_eq registered_def split: option.splits)





section \<open>The data-pump burst\<close>

lemma pump_loop_zero: "pump_loop dev port 0 = Some port"
  by (subst pump_loop.simps) simp

lemma pump_loop_step:
  "n \<noteq> 0 \<Longrightarrow> pump_loop dev port n
   = (if rejected (reply dev port 1)
      then Some (port\<lparr>written := written port @ [wire ''AT#SSEND=1'', wire pump_dummy_msg]\<rparr>)
      else pump_loop dev (port\<lparr>written := written port @ [wire ''AT#SSEND=1'', wire pump_dummy_msg]\<rparr>)
             (n - 1))"
  by (subst pump_loop.simps)
     (simp add: com_port_read_write_eq reply_after_write rejected_def split: option.splits)

lemma reply_shift2: "reply dev (port\<lparr>written := written port @ [a, b]\<rparr>) (2 * j + 1)
                     = reply dev port (2 * Suc j + 1)"
  by (simp add: reply_after_write)

lemma reply_shift3: "reply dev (port\<lparr>written := written port @ [a, b]\<rparr>) (2 * j + 1)
                     = reply dev port (2 * j + 3)"
  by (simp add: reply_after_write eval_nat_numeral)

lemma pump_loop_nat:
  "\<exists>k\<le>n. pump_loop dev port (int n)
            = Some (port\<lparr>written := written port
                      @ concat (replicate k [wire ''AT#SSEND=1'', wire pump_dummy_msg])\<rparr>)
          \<and> (\<forall>j<k. rejected (reply dev port (2 * j + 1)) \<longrightarrow> Suc j = k)
          \<and> (k < n \<longrightarrow> (\<exists>j. k = Suc j \<and> rejected (reply dev port (2 * j + 1))))"
proof (induction n arbitrary: port)
  case 0
  show ?case by (intro exI [of _ 0]) (simp add: pump_loop_zero)
next
  case (Suc n)
  let ?p2 = "port\<lparr>written := written port @ [wire ''AT#SSEND=1'', wire pump_dummy_msg]\<rparr>"
  have nz: "int (Suc n) \<noteq> 0" by simp
  have dec: "int (Suc n) - 1 = int n" by simp
  show ?case
  proof (cases "rejected (reply dev port 1)")
    case True
    then have "pump_loop dev port (int (Suc n)) = Some ?p2"
      by (simp only: pump_loop_step [OF nz] if_True)
    with True show ?thesis by (intro exI [of _ 1]) simp
  next
    case False
    then have step: "pump_loop dev port (int (Suc n)) = pump_loop dev ?p2 (int n)"
      by (simp only: pump_loop_step [OF nz] if_False dec)
    from Suc.IH [of ?p2] obtain k where k: "k \<le> n"
      "pump_loop dev ?p2 (int n)
       = Some (?p2\<lparr>written := written ?p2
                 @ concat (replicate k [wire ''AT#SSEND=1'', wire pump_dummy_msg])\<rparr>)"
      "\<forall>j<k. rejected (reply dev ?p2 (2 * j + 1)) \<longrightarrow> Suc j = k"
      "k < n \<longrightarrow> (\<exists>j. k = Suc j \<and> rejected (reply dev ?p2 (2 * j + 1)))"
      by blast
    have last: "\<forall>j<Suc k. rejected (reply dev port (2 * j + 1)) \<longrightarrow> Suc j = Suc k"
    proof (intro allI impI)
      fix j assume j: "j < Suc k" and r: "rejected (reply dev port (2 * j + 1))"
      show "Suc j = Suc k"
      proof (cases j)
        case 0
        with r False show ?thesis by simp
      next
        case (Suc j')
        with r have "rejected (reply dev ?p2 (2 * j' + 1))"
          by (simp only: reply_shift2)
        with k(3) j Suc show ?thesis by simp
      qed
    qed
    have early: "Suc k < Suc n \<longrightarrow> (\<exists>j. Suc k = Suc j \<and> rejected (reply dev port (2 * j + 1)))"
    proof
      assume "Suc k < Suc n"
      with k(4) obtain j where "k = Suc j" and "rejected (reply dev ?p2 (2 * j + 1))"
        by auto
      then have "Suc k = Suc (Suc j) \<and> rejected (reply dev port (2 * Suc j + 1))"
        by (simp only: reply_shift2 simp_thms)
      then show "\<exists>j. Suc k = Suc j \<and> rejected (reply dev port (2 * j + 1))"
        by blast
    qed
    have "pump_loop dev port (int (Suc n))
          = Some (port\<lparr>written := written port
                    @ concat (replicate (Suc k) [wire ''AT#SSEND=1'', wire pump_dummy_msg])\<rparr>)"
      unfolding step k(2) by simp
    with k(1) last early show ?thesis
      by (intro exI [of _ "Suc k"]) (simp only: Suc_le_mono simp_thms)
  qed
qed

lemma pump_data_to_server_nat:
  \<open>\<exists>k\<le>n. pump_data_to_server dev port (int n)
            = Some (port\<lparr>written := written port
                      @ [wire ''AT#SGACT=1,1'', wire ''AT#SD=1,0,7,"echo.u-blox.com",0,0,1'']
                      @ concat (replicate k [wire ''AT#SSEND=1'', wire pump_dummy_msg])
                      @ [wire ''AT#SH=1'']\<rparr>)
          \<and> (\<forall>j<k. rejected (reply dev port (2 * j + 3)) \<longrightarrow> Suc j = k)
          \<and> (k < n \<longrightarrow> (\<exists>j. k = Suc j \<and> rejected (reply dev port (2 * j + 3))))\<close>
proof -
  let ?p2 = \<open>port\<lparr>written := written port
              @ [wire ''AT#SGACT=1,1'', wire ''AT#SD=1,0,7,"echo.u-blox.com",0,0,1'']\<rparr>\<close>
  from pump_loop_nat [of n dev ?p2] obtain k where k: "k \<le> n"
      "pump_loop dev ?p2 (int n)
       = Some (?p2\<lparr>written := written ?p2
                 @ concat (replicate k [wire ''AT#SSEND=1'', wire pump_dummy_msg])\<rparr>)"
      "\<forall>j<k. rejected (reply dev ?p2 (2 * j + 1)) \<longrightarrow> Suc j = k"
      "k < n \<longrightarrow> (\<exists>j. k = Suc j \<and> rejected (reply dev ?p2 (2 * j + 1)))"
    by blast
  have a: \<open>pump_data_to_server dev port (int n)
        = Some (port\<lparr>written := written port
                  @ [wire ''AT#SGACT=1,1'', wire ''AT#SD=1,0,7,"echo.u-blox.com",0,0,1'']
                  @ concat (replicate k [wire ''AT#SSEND=1'', wire pump_dummy_msg])
                  @ [wire ''AT#SH=1'']\<rparr>)\<close>
    using k(2) by (simp add: pump_data_to_server_def com_port_read_write_eq)
  from k(3) have b: "\<forall>j<k. rejected (reply dev port (2 * j + 3)) \<longrightarrow> Suc j = k"
    by (simp only: reply_shift3)
  from k(4) have c: "k < n \<longrightarrow> (\<exists>j. k = Suc j \<and> rejected (reply dev port (2 * j + 3)))"
    by (simp only: reply_shift3)
  from k(1) a b c show ?thesis by blast
qed

section \<open>The flight-mode cycle\<close>

lemma registered_raw:
  "registered (Some (strip raw)) = (CHR ''8'' \<in> set raw)"
  by (simp add: registered_def contains8_strip)

lemma pump_five_returns: "\<exists>port'. pump_data_to_server dev port 5 = Some port'"
proof -
  from pump_data_to_server_nat [of 5 dev port]
  obtain port' where "pump_data_to_server dev port (int 5) = Some port'"
    by blast
  then show ?thesis by simp
qed

lemma flight_phase_enable:
  "\<exists>s'. flight_phase clock dev s ''AT+CFUN=1'' = Some s'
        \<and> (if registered (reply dev (com_port s) 1)
           then modem_log_file s' = modem_log_file s @ [clock (clock_reads s) @ pumping_marker]
                \<and> clock_reads s' = clock_reads s + 3
           else modem_log_file s' = modem_log_file s \<and> clock_reads s' = clock_reads s)"
proof -
  let ?p2 = "(com_port s)\<lparr>written := written (com_port s)
               @ [wire ''AT+CFUN=1'', wire cops_check_command]\<rparr>"
  have one: "contains ''1'' ''AT+CFUN=1''" by simp
  have second: "reply dev ((com_port s)\<lparr>written := written (com_port s) @ [wire ''AT+CFUN=1'']\<rparr>) 0
                = reply dev (com_port s) 1"
    by (simp add: reply_after_write)
  from pump_five_returns obtain port3 where pump: "pump_data_to_server dev ?p2 5 = Some port3"
    by blast
  show ?thesis
  proof (cases "registered (reply dev (com_port s) 1)")
    case True
    then obtain r where r: "reply dev (com_port s) 1 = Some r" "contains ''8'' r"
      by (auto simp: registered_def split: option.splits)
    have "flight_phase clock dev s ''AT+CFUN=1''
          = Some \<lparr>com_port = port3, clock_reads = clock_reads s + 3,
                  modem_log_file = modem_log_file s @ [clock (clock_reads s) @ pumping_marker]\<rparr>"
      unfolding flight_phase_def com_port_read_write_eq
      using one r pump by (simp add: second)
    with True show ?thesis by simp
  next
    case False
    have "flight_phase clock dev s ''AT+CFUN=1'' = Some (s\<lparr>com_port := ?p2\<rparr>)"
    proof (cases "reply dev (com_port s) 1")
      case None
      show ?thesis
        unfolding flight_phase_def com_port_read_write_eq
        using one None by (simp add: second)
    next
      case (Some r)
      with False have "\<not> contains ''8'' r" by (simp add: registered_def)
      with Some show ?thesis
        unfolding flight_phase_def com_port_read_write_eq
        using one by (simp add: second)
    qed
    with False show ?thesis by simp
  qed
qed

lemma flight_phase_disable:
  "flight_phase clock dev s ''AT+CFUN=4''
   = Some \<lparr>com_port = (com_port s)\<lparr>written := written (com_port s) @ [wire ''AT+CFUN=4'']\<rparr>,
           clock_reads = clock_reads s + 1,
           modem_log_file = modem_log_file s @ [clock (clock_reads s) @ flight_marker]\<rparr>"
proof -
  have no_one: "\<not> contains ''1'' ''AT+CFUN=4''" by simp
  have four: "contains ''4'' ''AT+CFUN=4''" by simp
  show ?thesis
    unfolding flight_phase_def com_port_read_write_eq
    using no_one four by simp
qed

lemma flight_for_pair:
  "\<exists>s1. flight_for clock dev s flight_mode_commands = Some s1
        \<and> (if registered (reply dev (com_port s) 1)
           then modem_log_file s1
                = modem_log_file s @ [clock (clock_reads s) @ pumping_marker,
                                      clock (clock_reads s + 3) @ flight_marker]
                \<and> clock_reads s1 = clock_reads s + 4
           else modem_log_file s1 = modem_log_file s @ [clock (clock_reads s) @ flight_marker]
                \<and> clock_reads s1 = clock_reads s + 1)"
proof -
  from flight_phase_enable [of clock dev s] obtain s' where
    s': "flight_phase clock dev s ''AT+CFUN=1'' = Some s'"
    "if registered (reply dev (com_port s) 1)
     then modem_log_file s' = modem_log_file s @ [clock (clock_reads s) @ pumping_marker]
          \<and> clock_reads s' = clock_reads s + 3
     else modem_log_file s' = modem_log_file s \<and> clock_reads s' = clock_reads s"
    by blast
  have run: "flight_for clock dev s flight_mode_commands
        = Some \<lparr>com_port = (com_port s')\<lparr>written := written (com_port s') @ [wire ''AT+CFUN=4'']\<rparr>,
                clock_reads = clock_reads s' + 1,
                modem_log_file = modem_log_file s' @ [clock (clock_reads s') @ flight_marker]\<rparr>"
    by (simp add: flight_mode_commands_def s'(1) flight_phase_disable)
  show ?thesis
  proof (cases "registered (reply dev (com_port s) 1)")
    case True
    with s'(2) run show ?thesis by simp
  next
    case False
    with s'(2) run show ?thesis by simp
  qed
qed

lemma pump_modem_data_with_flight_mode_configured:
  "configure_sim_module dev (com_port s) config_commands TIMES_RETRY = (Some True, port1)
   \<Longrightarrow> pump_modem_data_with_flight_mode clock dev passes s sig_commands config_commands
         phone_mode_commands
       = flight_while clock dev passes (s\<lparr>com_port := send_all dev port1 sig_commands\<rparr>)
           phone_mode_commands"
  by (simp add: pump_modem_data_with_flight_mode_def truthy_def)

lemma pump_modem_data_with_flight_mode_not_configured:
  "configure_sim_module dev (com_port s) config_commands TIMES_RETRY = (r, port1)
   \<Longrightarrow> r \<noteq> Some True
   \<Longrightarrow> pump_modem_data_with_flight_mode clock dev passes s sig_commands config_commands
         phone_mode_commands = Some (s\<lparr>com_port := port1\<rparr>)"
  by (simp add: pump_modem_data_with_flight_mode_def truthy_def)

section \<open>The TCP probe and the status queries\<close>

lemma sock_loop_port:
  "snd (sock_loop dev port cmds message_response)
   = port\<lparr>written := written port @ map wire cmds\<rparr>"
proof (induction cmds arbitrary: port message_response)
  case Nil
  show ?case by simp
next
  case (Cons c cs)
  show ?case
    by (simp add: com_port_read_write_eq Cons.IH split: option.splits)
qed

lemma sock_loop_lines:
  "\<exists>lines. fst (sock_loop dev port cmds message_response) = message_response @ lines
           \<and> (\<forall>line \<in> set lines. \<forall>c \<in> set line. \<not> is_linebreak c)"
proof (induction cmds arbitrary: port message_response)
  case Nil
  show ?case by simp
next
  case (Cons c cs)
  let ?p1 = "port\<lparr>written := written port @ [wire c]\<rparr>"
  let ?found = "\<lambda>r. find (\<lambda>line. startswith line ''#SI: 1'' \<or> startswith line ''#SS: 1'')
                         (splitlines r)"
  show ?case
  proof (cases "reply dev port 0")
    case None
    then have "sock_loop dev port (c # cs) message_response
               = sock_loop dev ?p1 cs message_response"
      by (simp add: com_port_read_write_eq)
    with Cons.IH [of ?p1 message_response] show ?thesis by simp
  next
    case (Some r)
    show ?thesis
    proof (cases "?found r")
      case None
      with Some have "sock_loop dev port (c # cs) message_response
                      = sock_loop dev ?p1 cs message_response"
        by (simp add: com_port_read_write_eq)
      with Cons.IH [of ?p1 message_response] show ?thesis by simp
    next
      case found: (Some line)
      with Some have step: "sock_loop dev port (c # cs) message_response
                      = sock_loop dev ?p1 cs (message_response @ [line])"
        by (simp add: com_port_read_write_eq)
      from found have "line \<in> set (splitlines r)" by (rule find_in_set)
      then have clean: "\<forall>c \<in> set line. \<not> is_linebreak c"
        by (rule splitlines_no_linebreak)
      from Cons.IH [of ?p1 "message_response @ [line]"] obtain lines where
        lines: "fst (sock_loop dev ?p1 cs (message_response @ [line]))
                = (message_response @ [line]) @ lines"
        "\<forall>line \<in> set lines. \<forall>c \<in> set line. \<not> is_linebreak c"
        by blast
      from lines(1) have "fst (sock_loop dev port (c # cs) message_response)
                          = message_response @ (line # lines)"
        unfolding step by simp
      moreover from clean lines(2)
      have "\<forall>l \<in> set (line # lines). \<forall>c \<in> set l. \<not> is_linebreak c"
        by simp
      ultimately show ?thesis by blast
    qed
  qed
qed

lemma literal_msg_clean: "\<forall>c \<in> set ''#MSG:''. \<not> is_linebreak c"
  by (simp add: is_linebreak_def)

lemma literal_msg_none_clean: "\<forall>c \<in> set ''#MSG: None''. \<not> is_linebreak c"
  by (simp add: is_linebreak_def)

lemma message_field_clean:
  "\<forall>line \<in> set (case response of
                     Some r \<Rightarrow> ''#MSG:'' # (case find (contains msg_in_response) (splitlines r) of
                                               None \<Rightarrow> [] | Some line \<Rightarrow> [line])
                   | None \<Rightarrow> [''#MSG: None'']).
     \<forall>c \<in> set line. \<not> is_linebreak c"
proof (cases response)
  case None
  then show ?thesis using literal_msg_none_clean by simp
next
  case (Some r)
  show ?thesis
  proof (cases "find (contains msg_in_response) (splitlines r)")
    case None
    with Some show ?thesis using literal_msg_clean by simp
  next
    case found: (Some line)
    then have "line \<in> set (splitlines r)" by (rule find_in_set)
    then have "\<forall>c \<in> set line. \<not> is_linebreak c" by (rule splitlines_no_linebreak)
    with Some found show ?thesis using literal_msg_clean by simp
  qed
qed

lemma tcp_connection_test_eq:
  "tcp_connection_test dev port tcp_commands msg_to_commands msg_from_command sock_commands
   = (join '' '' (fst (sock_loop dev
         (port\<lparr>written := written port
                 @ map wire (tcp_commands @ msg_to_commands @ [msg_from_command])\<rparr>)
         sock_commands
         (case reply dev port (length tcp_commands + length msg_to_commands) of
            Some r \<Rightarrow> ''#MSG:'' # (case find (contains msg_in_response) (splitlines r) of
                                      None \<Rightarrow> [] | Some line \<Rightarrow> [line])
          | None \<Rightarrow> [''#MSG: None'']))),
      port\<lparr>written := written port
             @ map wire (tcp_commands @ msg_to_commands @ [msg_from_command] @ sock_commands)\<rparr>)"
proof -
  let ?p2 = "port\<lparr>written := written port @ map wire tcp_commands @ map wire msg_to_commands\<rparr>"
  have r: "reply dev ?p2 0 = reply dev port (length tcp_commands + length msg_to_commands)"
    using reply_after_write [of dev port "map wire tcp_commands @ map wire msg_to_commands" 0]
    by simp
  show ?thesis
    unfolding tcp_connection_test_def send_all_eq com_port_read_write_eq
    by (simp add: r Let_def case_prod_beta sock_loop_port)
qed

lemma tcp_connection_test_clean:
  "\<forall>c \<in> set (fst (tcp_connection_test dev port tcp_commands msg_to_commands
                      msg_from_command sock_commands)). \<not> is_linebreak c"
proof -
  let ?mr = "case reply dev port (length tcp_commands + length msg_to_commands) of
            Some r \<Rightarrow> ''#MSG:'' # (case find (contains msg_in_response) (splitlines r) of
                                      None \<Rightarrow> [] | Some line \<Rightarrow> [line])
          | None \<Rightarrow> [''#MSG: None'']"
  let ?p3 = "port\<lparr>written := written port
                 @ map wire (tcp_commands @ msg_to_commands @ [msg_from_command])\<rparr>"
  from sock_loop_lines [of dev ?p3 sock_commands ?mr] obtain lines where
    lines: "fst (sock_loop dev ?p3 sock_commands ?mr) = ?mr @ lines"
    "\<forall>line \<in> set lines. \<forall>c \<in> set line. \<not> is_linebreak c"
    by blast
  have "\<forall>line \<in> set (?mr @ lines). \<forall>c \<in> set line. \<not> is_linebreak c"
    using message_field_clean [of "reply dev port (length tcp_commands + length msg_to_commands)"]
      lines(2) by auto
  then have "\<forall>c \<in> set (join '' '' (?mr @ lines)). \<not> is_linebreak c"
    by (rule join_space_no_linebreak)
  then show ?thesis
    unfolding tcp_connection_test_eq fst_conv lines(1) .
qed

lemma filtered_lines_clean:
  "\<forall>c \<in> set (join '' '' (case response of
                                 Some r \<Rightarrow> filter P (splitlines r)
                               | None \<Rightarrow> [])). \<not> is_linebreak c"
proof (cases response)
  case None
  then show ?thesis by simp
next
  case (Some r)
  have "\<forall>line \<in> set (filter P (splitlines r)). \<forall>c \<in> set line. \<not> is_linebreak c"
    using splitlines_no_linebreak by auto
  then have "\<forall>c \<in> set (join '' '' (filter P (splitlines r))). \<not> is_linebreak c"
    by (rule join_space_no_linebreak)
  with Some show ?thesis by simp
qed

lemma check_network_status_clean:
  "\<forall>c \<in> set (fst (check_network_status dev port command)). \<not> is_linebreak c"
  unfolding check_network_status_def com_port_read_write_eq Let_def case_prod_conv fst_conv
  by (rule filtered_lines_clean)

lemma check_rf_status_clean:
  "\<forall>c \<in> set (fst (check_rf_status dev port command)). \<not> is_linebreak c"
  unfolding check_rf_status_def com_port_read_write_eq Let_def case_prod_conv fst_conv
  by (rule filtered_lines_clean)

section \<open>The telemetry loop\<close>

lemma telemetry_pass_eq:
  "telemetry_pass clock dev s rf_command nw_eps_command nw_command
   = (let t = tcp_connection_test dev (com_port s) tcp_connect_commands message_to_server
                message_from_server socket_commands;
          e = check_network_status dev (snd t) nw_eps_command;
          n = check_network_status dev (snd e) nw_command;
          r = check_rf_status dev (snd n) rf_command
      in \<lparr>com_port = snd r, clock_reads = clock_reads s + 1,
          modem_log_file = modem_log_file s
            @ [clock (clock_reads s) @ '':'' @ fst r @ '':'' @ fst t @ '':''
               @ fst e @ '':'' @ fst n @ [CHR 0x0A]]\<rparr>)"
  by (simp add: telemetry_pass_def Let_def case_prod_beta)

lemma telemetry_while_Suc_right:
  "telemetry_while clock dev (Suc n) s rf_command nw_eps_command nw_command
   = telemetry_pass clock dev
       (telemetry_while clock dev n s rf_command nw_eps_command nw_command)
       rf_command nw_eps_command nw_command"
  by (induction n arbitrary: s) simp_all

lemma telemetry_while_add:
  "telemetry_while clock dev (m + k) s rf_command nw_eps_command nw_command
   = telemetry_while clock dev k
       (telemetry_while clock dev m s rf_command nw_eps_command nw_command)
       rf_command nw_eps_command nw_command"
  by (induction m arbitrary: s) simp_all

lemma telemetry_pass_clock:
  "clock_reads (telemetry_pass clock dev s rf_command nw_eps_command nw_command)
   = clock_reads s + 1"
  by (simp add: telemetry_pass_eq Let_def)

lemma telemetry_pass_log:
  "\<exists>entry. modem_log_file (telemetry_pass clock dev s rf_command nw_eps_command nw_command)
             = modem_log_file s @ [entry]"
  by (simp add: telemetry_pass_eq Let_def)

lemma telemetry_while_clock:
  "clock_reads (telemetry_while clock dev n s rf_command nw_eps_command nw_command)
   = clock_reads s + n"
  by (induction n arbitrary: s) (simp_all add: telemetry_pass_clock)

lemma telemetry_while_log:
  "\<exists>records. modem_log_file (telemetry_while clock dev n s rf_command nw_eps_command nw_command)
              = modem_log_file s @ records \<and> length records = n"
proof (induction n arbitrary: s)
  case 0
  show ?case by simp
next
  case (Suc n)
  let ?s1 = "telemetry_pass clock dev s rf_command nw_eps_command nw_command"
  from telemetry_pass_log [of clock dev s rf_command nw_eps_command nw_command]
  obtain entry where r: "modem_log_file ?s1 = modem_log_file s @ [entry]"
    by blast
  from Suc.IH [of ?s1] obtain records where
    rs: "modem_log_file (telemetry_while clock dev n ?s1 rf_command nw_eps_command nw_command)
         = modem_log_file ?s1 @ records" "length records = n"
    by blast
  from r rs have
    "modem_log_file (telemetry_while clock dev (Suc n) s rf_command nw_eps_command nw_command)
     = modem_log_file s @ (entry # records) \<and> length (entry # records) = Suc n"
    by simp
  then show ?case by blast
qed

lemma telemetry_while_nth:
  assumes "i < n"
  shows "modem_log_file (telemetry_while clock dev n s rf_command nw_eps_command nw_command)
           ! (length (modem_log_file s) + i)
         = last (modem_log_file (telemetry_pass clock dev
               (telemetry_while clock dev i s rf_command nw_eps_command nw_command)
               rf_command nw_eps_command nw_command))"
proof -
  let ?si = "telemetry_while clock dev i s rf_command nw_eps_command nw_command"
  let ?sj = "telemetry_pass clock dev ?si rf_command nw_eps_command nw_command"
  from assms have n: "n = Suc i + (n - Suc i)" by simp
  have split: "telemetry_while clock dev n s rf_command nw_eps_command nw_command
        = telemetry_while clock dev (n - Suc i) ?sj rf_command nw_eps_command nw_command"
    by (subst n, subst telemetry_while_add) (simp only: telemetry_while_Suc_right)
  from telemetry_while_log [of clock dev i s rf_command nw_eps_command nw_command]
  obtain before where b: "modem_log_file ?si = modem_log_file s @ before" "length before = i"
    by blast
  from telemetry_pass_log [of clock dev ?si rf_command nw_eps_command nw_command]
  obtain entry where r: "modem_log_file ?sj = modem_log_file ?si @ [entry]"
    by blast
  from telemetry_while_log [of clock dev "n - Suc i" ?sj rf_command nw_eps_command nw_command]
  obtain after where a:
    "modem_log_file (telemetry_while clock dev (n - Suc i) ?sj rf_command nw_eps_command nw_command)
     = modem_log_file ?sj @ after"
    by blast
  have "modem_log_file (telemetry_while clock dev n s rf_command nw_eps_command nw_command)
        = (modem_log_file s @ before) @ entry # after"
    unfolding split a r b(1) by simp
  then have "modem_log_file (telemetry_while clock dev n s rf_command nw_eps_command nw_command)
               ! (length (modem_log_file s) + i) = entry"
    using b(2) by (simp add: nth_append)
  moreover from r have "last (modem_log_file ?sj) = entry" by simp
  ultimately show ?thesis by simp
qed

lemma read_and_log_modem_data_configured:
  "configure_sim_module dev (com_port s) config_commands TIMES_RETRY = (Some True, port1)
   \<Longrightarrow> read_and_log_modem_data clock dev passes s sig_commands rf_command nw_eps_command
         nw_command config_commands
       = telemetry_while clock dev passes (s\<lparr>com_port := send_all dev port1 sig_commands\<rparr>)
           rf_command nw_eps_command nw_command"
  by (simp add: read_and_log_modem_data_def truthy_def)

lemma read_and_log_modem_data_not_configured:
  "configure_sim_module dev (com_port s) config_commands TIMES_RETRY = (r, port1)
   \<Longrightarrow> r \<noteq> Some True
   \<Longrightarrow> modem_log_file (read_and_log_modem_data clock dev passes s sig_commands rf_command
         nw_eps_command nw_command config_commands) = modem_log_file s"
  by (simp add: read_and_log_modem_data_def truthy_def)

section \<open>Signal quality: theorems\<close>

text \<open>
  Claim C6. For rsrp = -90, rssi = -95, any rsrq at least -5 and any sinr at least 12.5,
  the components are 30, 10, 40 and 40 and the returned quality is
  (30 + 10 + 40 + 40) / 4 = 30.
\<close>

theorem signal_quality_sample:
  assumes "rsrq \<ge> -5" and "sinr \<ge> 12.5"
  shows "rsrp_quality (-90) = 30 \<and> rssi_quality (-95) = 10
         \<and> rsrq_quality rsrq (-95) = 40 \<and> sinr_quality sinr = 40
         \<and> calculate_signal_quality (-90) (-95) rsrq sinr = 30"
  using assms
  by (simp add: rsrp_quality_def rssi_quality_def rsrq_quality_def sinr_quality_def
      calculate_signal_quality_def)

theorem signal_quality_sample_witness:
  "(-5::real) \<ge> -5 \<and> (12.5::real) \<ge> 12.5
   \<and> rsrp_quality (-90) = 30 \<and> rssi_quality (-95) = 10
   \<and> rsrq_quality (-5) (-95) = 40 \<and> sinr_quality 12.5 = 40
   \<and> calculate_signal_quality (-90) (-95) (-5) 12.5 = 30"
  using signal_quality_sample [of "-5" "12.5"] by simp

text \<open>
  Claim C10. Once rsrq is below -5, the RSRQ component is decided by rssi alone: 30 when
  rssi is at least -6 and 10 otherwise. The returned quality then does not depend on the
  exact value of rsrq, and the RSRQ component is never 20, whatever the arguments.
\<close>

theorem rsrq_component_reads_rssi:
  assumes "rsrq < -5"
  shows "rsrq_quality rsrq rssi = (if rssi \<ge> -6 then 30 else 10)
         \<and> (\<forall>rsrq'. rsrq' < -5 \<longrightarrow>
               calculate_signal_quality rsrp rssi rsrq' sinr
               = calculate_signal_quality rsrp rssi rsrq sinr)
         \<and> (\<forall>q r. rsrq_quality q r \<noteq> 20)"
proof (intro conjI allI impI)
  show "rsrq_quality rsrq rssi = (if rssi \<ge> -6 then 30 else 10)"
    using assms by (simp add: rsrq_quality_def)
next
  fix rsrq' :: real
  assume "rsrq' < -5"
  then have "rsrq_quality rsrq' rssi = rsrq_quality rsrq rssi"
    using assms by (simp add: rsrq_quality_def)
  then show "calculate_signal_quality rsrp rssi rsrq' sinr
             = calculate_signal_quality rsrp rssi rsrq sinr"
    by (simp only: calculate_signal_quality_def)
next
  fix q r :: real
  show "rsrq_quality q r \<noteq> 20"
    by (simp add: rsrq_quality_def)
qed

theorem rsrq_component_reads_rssi_witness:
  "(-10::real) < -5
   \<and> rsrq_quality (-10) (-95) = 10 \<and> rsrq_quality (-10) (-6) = 30
   \<and> calculate_signal_quality (-90) (-95) (-19.5) 13
     = calculate_signal_quality (-90) (-95) (-10) 13
   \<and> rsrq_quality (-10) (-95) \<noteq> 20"
proof -
  have h: "(-10::real) < -5" by simp
  have a: "rsrq_quality (-10) (-95) = 10"
    using rsrq_component_reads_rssi [OF h, of "-95" "-90" 13] by simp
  have b: "rsrq_quality (-10) (-6) = 30"
    using rsrq_component_reads_rssi [OF h, of "-6" "-90" 13] by simp
  have c: "calculate_signal_quality (-90) (-95) (-19.5) 13
     = calculate_signal_quality (-90) (-95) (-10) 13"
  proof -
    have "\<forall>rsrq'. rsrq' < -5 \<longrightarrow>
               calculate_signal_quality (-90) (-95) rsrq' 13
               = calculate_signal_quality (-90) (-95) (-10) 13"
      using rsrq_component_reads_rssi [OF h, of "-95" "-90" 13] by blast
    moreover have "(-19.5::real) < -5" by simp
    ultimately show ?thesis by blast
  qed
  show ?thesis using h a b c by simp
qed

section \<open>Configuration and registration: theorems\<close>








section \<open>The data-pump burst: theorem\<close>




section \<open>The attachment test and the flight-mode cycle: theorems\<close>

text \<open>
  Claim C3. Let a registration poll receive the text \<open>raw\<close>. The poll succeeds, and the
  function returns \<open>True\<close> at once, exactly when the character 8 occurs somewhere in
  \<open>raw\<close>; otherwise the poll has used one attempt and polling goes on with the
  remaining ones. In particular \<open>+COPS: 0,0,"Orange F",8\<close> succeeds and
  \<open>+COPS: 0,0,"Orange F",2\<close> is one failed attempt. The check made after the radio is
  enabled in the flight-mode cycle is the same: the pumping marker is written exactly when
  8 occurs in the response to the operator-selection query.
\<close>

theorem registration_is_digit_8:
  assumes "dev (length (written port)) = Some raw"
  shows \<open>registration_loop dev port (Suc attempts)
         = (if CHR ''8'' \<in> set raw
            then (Some True, port\<lparr>written := written port @ [wire cops_check_command]\<rparr>)
            else registration_loop dev
                   (port\<lparr>written := written port @ [wire cops_check_command]\<rparr>) attempts)
       \<and> (raw = ''+COPS: 0,0,"Orange F",8''
            \<longrightarrow> registration_loop dev port (Suc attempts)
                = (Some True, port\<lparr>written := written port @ [wire cops_check_command]\<rparr>))
       \<and> (raw = ''+COPS: 0,0,"Orange F",2''
            \<longrightarrow> registration_loop dev port (Suc attempts)
                = registration_loop dev
                    (port\<lparr>written := written port @ [wire cops_check_command]\<rparr>) attempts)
       \<and> (\<forall>clock s raw'. dev (Suc (length (written (com_port s)))) = Some raw'
            \<longrightarrow> (\<exists>s'. flight_phase clock dev s ''AT+CFUN=1'' = Some s'
                     \<and> modem_log_file s'
                       = (if CHR ''8'' \<in> set raw'
                          then modem_log_file s @ [clock (clock_reads s) @ pumping_marker]
                          else modem_log_file s)))\<close>
proof -
  from assms have "reply dev port 0 = Some (strip raw)"
    by (simp add: reply_def)
  then have reg: "registered (reply dev port 0) = (CHR ''8'' \<in> set raw)"
    by (simp only: registered_raw)
  have general: "registration_loop dev port (Suc attempts)
         = (if CHR ''8'' \<in> set raw
            then (Some True, port\<lparr>written := written port @ [wire cops_check_command]\<rparr>)
            else registration_loop dev
                   (port\<lparr>written := written port @ [wire cops_check_command]\<rparr>) attempts)"
    by (simp only: registration_loop_step reg)
  have with8: \<open>raw = ''+COPS: 0,0,"Orange F",8''
            \<longrightarrow> registration_loop dev port (Suc attempts)
                = (Some True, port\<lparr>written := written port @ [wire cops_check_command]\<rparr>)\<close>
  proof
    assume \<open>raw = ''+COPS: 0,0,"Orange F",8''\<close>
    then have "CHR ''8'' \<in> set raw" by simp
    with general show "registration_loop dev port (Suc attempts)
                = (Some True, port\<lparr>written := written port @ [wire cops_check_command]\<rparr>)"
      by (simp only: if_True)
  qed
  have with2: \<open>raw = ''+COPS: 0,0,"Orange F",2''
            \<longrightarrow> registration_loop dev port (Suc attempts)
                = registration_loop dev
                    (port\<lparr>written := written port @ [wire cops_check_command]\<rparr>) attempts\<close>
  proof
    assume \<open>raw = ''+COPS: 0,0,"Orange F",2''\<close>
    then have "CHR ''8'' \<notin> set raw" by simp
    with general show "registration_loop dev port (Suc attempts)
                = registration_loop dev
                    (port\<lparr>written := written port @ [wire cops_check_command]\<rparr>) attempts"
      by (simp only: if_False)
  qed
  have flight: "\<forall>clock s raw'. dev (Suc (length (written (com_port s)))) = Some raw'
            \<longrightarrow> (\<exists>s'. flight_phase clock dev s ''AT+CFUN=1'' = Some s'
                     \<and> modem_log_file s'
                       = (if CHR ''8'' \<in> set raw'
                          then modem_log_file s @ [clock (clock_reads s) @ pumping_marker]
                          else modem_log_file s))"
  proof (intro allI impI)
    fix clock :: clock and s :: session and raw'
    assume "dev (Suc (length (written (com_port s)))) = Some raw'"
    then have "reply dev (com_port s) 1 = Some (strip raw')"
      by (simp add: reply_def)
    then have r: "registered (reply dev (com_port s) 1) = (CHR ''8'' \<in> set raw')"
      by (simp only: registered_raw)
    from flight_phase_enable [of clock dev s] obtain s' where
      s': "flight_phase clock dev s ''AT+CFUN=1'' = Some s'"
      "if registered (reply dev (com_port s) 1)
       then modem_log_file s' = modem_log_file s @ [clock (clock_reads s) @ pumping_marker]
            \<and> clock_reads s' = clock_reads s + 3
       else modem_log_file s' = modem_log_file s \<and> clock_reads s' = clock_reads s"
      by blast
    from s'(2) have "modem_log_file s'
                       = (if CHR ''8'' \<in> set raw'
                          then modem_log_file s @ [clock (clock_reads s) @ pumping_marker]
                          else modem_log_file s)"
      unfolding r by (simp split: if_splits)
    with s'(1) show "\<exists>s'. flight_phase clock dev s ''AT+CFUN=1'' = Some s'
                     \<and> modem_log_file s'
                       = (if CHR ''8'' \<in> set raw'
                          then modem_log_file s @ [clock (clock_reads s) @ pumping_marker]
                          else modem_log_file s)"
      by blast
  qed
  from general with8 with2 flight show ?thesis by (intro conjI)
qed

theorem registration_is_digit_8_witness:
  \<open>registration_loop (\<lambda>k. Some ''+COPS: 0,0,"Orange F",8'') \<lparr>written = []\<rparr> 1
     = (Some True, \<lparr>written = [wire cops_check_command]\<rparr>)
   \<and> registration_loop (\<lambda>k. Some ''+COPS: 0,0,"Orange F",2'') \<lparr>written = []\<rparr> 1
     = (None, \<lparr>written = [wire cops_check_command]\<rparr>)
   \<and> (\<exists>s'. flight_phase (\<lambda>k. ''2024-05-01 10:00:00'') (\<lambda>k. Some ''+COPS: 0,0,"Orange F",8'')
               \<lparr>com_port = \<lparr>written = []\<rparr>, clock_reads = 0, modem_log_file = []\<rparr> ''AT+CFUN=1''
             = Some s'
           \<and> modem_log_file s' = [''2024-05-01 10:00:00'' @ pumping_marker])\<close>
proof -
  let ?dev8 = \<open>\<lambda>k::nat. Some ''+COPS: 0,0,"Orange F",8''\<close>
  let ?dev2 = \<open>\<lambda>k::nat. Some ''+COPS: 0,0,"Orange F",2''\<close>
  let ?p = "\<lparr>written = []\<rparr>"
  let ?s = "\<lparr>com_port = \<lparr>written = []\<rparr>, clock_reads = 0, modem_log_file = []\<rparr>"
  have h8: \<open>?dev8 (length (written ?p)) = Some ''+COPS: 0,0,"Orange F",8''\<close> by simp
  have h2: \<open>?dev2 (length (written ?p)) = Some ''+COPS: 0,0,"Orange F",2''\<close> by simp
  have a: "registration_loop ?dev8 ?p 1 = (Some True, \<lparr>written = [wire cops_check_command]\<rparr>)"
    using registration_is_digit_8 [OF h8, where attempts = 0] by simp
  have b: "registration_loop ?dev2 ?p 1 = (None, \<lparr>written = [wire cops_check_command]\<rparr>)"
    using registration_is_digit_8 [OF h2, where attempts = 0] by simp
  have f8: \<open>?dev8 (Suc (length (written (com_port ?s)))) = Some ''+COPS: 0,0,"Orange F",8''\<close>
    by simp
  note fl = registration_is_digit_8 [OF h8, where attempts = 0, THEN conjunct2, THEN conjunct2,
      THEN conjunct2, rule_format]
  from fl [where s = ?s and clock = "\<lambda>k. ''2024-05-01 10:00:00''", OF f8]
  have c: "\<exists>s'. flight_phase (\<lambda>k. ''2024-05-01 10:00:00'') ?dev8 ?s ''AT+CFUN=1'' = Some s'
           \<and> modem_log_file s' = [''2024-05-01 10:00:00'' @ pumping_marker]"
    by simp
  from a b c show ?thesis by (intro conjI)
qed

text \<open>
  Claim C4. Run the flight-mode loop over the fixed pair of commands, enable radio then
  disable radio. Each pass of the loop returns. If the re-registration check after each of
  the two enable phases succeeds, then after two passes the log file has gained exactly
  four lines, in this order: pumping marker, flight-mode marker, pumping marker,
  flight-mode marker, each behind the timestamp read when it was written.
\<close>

theorem flight_two_cycles_log:
  "\<exists>s1. flight_while clock dev 1 s flight_mode_commands = Some s1
        \<and> (registered (reply dev (com_port s) 1) \<and> registered (reply dev (com_port s1) 1)
           \<longrightarrow> (\<exists>s2. flight_while clock dev 2 s flight_mode_commands = Some s2
                     \<and> modem_log_file s2
                       = modem_log_file s
                         @ [clock (clock_reads s) @ pumping_marker,
                            clock (clock_reads s + 3) @ flight_marker,
                            clock (clock_reads s + 4) @ pumping_marker,
                            clock (clock_reads s + 7) @ flight_marker]))"
proof -
  from flight_for_pair [of clock dev s] obtain s1 where
    s1: "flight_for clock dev s flight_mode_commands = Some s1"
    "if registered (reply dev (com_port s) 1)
     then modem_log_file s1
          = modem_log_file s @ [clock (clock_reads s) @ pumping_marker,
                                clock (clock_reads s + 3) @ flight_marker]
          \<and> clock_reads s1 = clock_reads s + 4
     else modem_log_file s1 = modem_log_file s @ [clock (clock_reads s) @ flight_marker]
          \<and> clock_reads s1 = clock_reads s + 1"
    by blast
  from flight_for_pair [of clock dev s1] obtain s2 where
    s2: "flight_for clock dev s1 flight_mode_commands = Some s2"
    "if registered (reply dev (com_port s1) 1)
     then modem_log_file s2
          = modem_log_file s1 @ [clock (clock_reads s1) @ pumping_marker,
                                 clock (clock_reads s1 + 3) @ flight_marker]
          \<and> clock_reads s2 = clock_reads s1 + 4
     else modem_log_file s2 = modem_log_file s1 @ [clock (clock_reads s1) @ flight_marker]
          \<and> clock_reads s2 = clock_reads s1 + 1"
    by blast
  have one: "flight_while clock dev 1 s flight_mode_commands = Some s1"
    using s1(1) by simp
  have two: "flight_while clock dev 2 s flight_mode_commands = Some s2"
    using s1(1) s2(1) by (simp add: eval_nat_numeral)
  have "registered (reply dev (com_port s) 1) \<and> registered (reply dev (com_port s1) 1)
        \<longrightarrow> modem_log_file s2
            = modem_log_file s
              @ [clock (clock_reads s) @ pumping_marker,
                 clock (clock_reads s + 3) @ flight_marker,
                 clock (clock_reads s + 4) @ pumping_marker,
                 clock (clock_reads s + 7) @ flight_marker]"
  proof
    assume both: "registered (reply dev (com_port s) 1) \<and> registered (reply dev (com_port s1) 1)"
    with s1(2) have l1: "modem_log_file s1
          = modem_log_file s @ [clock (clock_reads s) @ pumping_marker,
                                clock (clock_reads s + 3) @ flight_marker]"
      and c1: "clock_reads s1 = clock_reads s + 4"
      by simp_all
    from both s2(2) have "modem_log_file s2
          = modem_log_file s1 @ [clock (clock_reads s1) @ pumping_marker,
                                 clock (clock_reads s1 + 3) @ flight_marker]"
      by simp
    then show "modem_log_file s2
            = modem_log_file s
              @ [clock (clock_reads s) @ pumping_marker,
                 clock (clock_reads s + 3) @ flight_marker,
                 clock (clock_reads s + 4) @ pumping_marker,
                 clock (clock_reads s + 7) @ flight_marker]"
      unfolding l1 c1 by (simp add: add.assoc)
  qed
  with one two show ?thesis by blast
qed

theorem flight_two_cycles_log_witness:
  \<open>(\<forall>port. registered (reply (\<lambda>k. Some ''+COPS: 0,0,"Orange F",8 OK'') port 1))
   \<and> (\<exists>s2. flight_while (\<lambda>k. if k = 0 then ''10:00:00'' else if k = 3 then ''10:01:00''
                            else if k = 4 then ''10:01:20'' else ''10:02:20'')
               (\<lambda>k. Some ''+COPS: 0,0,"Orange F",8 OK'') 2
               \<lparr>com_port = \<lparr>written = []\<rparr>, clock_reads = 0, modem_log_file = []\<rparr>
               flight_mode_commands = Some s2
           \<and> modem_log_file s2
             = [''10:00:00'' @ pumping_marker, ''10:01:00'' @ flight_marker,
                ''10:01:20'' @ pumping_marker, ''10:02:20'' @ flight_marker])\<close>
proof -
  let ?dev = \<open>\<lambda>k::nat. Some ''+COPS: 0,0,"Orange F",8 OK''\<close>
  let ?clock = "\<lambda>k::nat. if k = 0 then ''10:00:00'' else if k = 3 then ''10:01:00''
                            else if k = 4 then ''10:01:20'' else ''10:02:20''"
  let ?s = "\<lparr>com_port = \<lparr>written = []\<rparr>, clock_reads = 0, modem_log_file = []\<rparr>"
  have reg: "\<forall>port. registered (reply ?dev port 1)"
    by (simp add: reply_def registered_raw)
  have "\<exists>s1. flight_while ?clock ?dev 1 ?s flight_mode_commands = Some s1
        \<and> (registered (reply ?dev \<lparr>written = []\<rparr> 1) \<and> registered (reply ?dev (com_port s1) 1)
           \<longrightarrow> (\<exists>s2. flight_while ?clock ?dev 2 ?s flight_mode_commands = Some s2
                     \<and> modem_log_file s2
                       = [''10:00:00'' @ pumping_marker, ''10:01:00'' @ flight_marker,
                          ''10:01:20'' @ pumping_marker, ''10:02:20'' @ flight_marker]))"
    using flight_two_cycles_log [of ?clock ?dev ?s] by simp
  with reg have "\<exists>s2. flight_while ?clock ?dev 2 ?s flight_mode_commands = Some s2
           \<and> modem_log_file s2
             = [''10:00:00'' @ pumping_marker, ''10:01:00'' @ flight_marker,
                ''10:01:20'' @ pumping_marker, ''10:02:20'' @ flight_marker]"
    by blast
  with reg show ?thesis by blast
qed

section \<open>The TCP probe: theorem\<close>



section \<open>The telemetry record: theorem\<close>

text \<open>
  Claim C8. In telemetry mode every pass of the loop appends exactly one record to the
  log file. The record of pass \<open>i\<close> is the timestamp read in that pass, the RF-status
  text, the TCP-probe text, the EPS registration-status text and the legacy
  registration-status text of that pass, in this order, with a colon between neighbours
  and a newline at the end. None of the four status texts contains a line boundary, so
  the record is one line. (The probe runs first and the RF query last; the record puts
  the RF text first.)
\<close>

theorem telemetry_record_format:
  assumes "i < n"
  shows "\<exists>tcp_status nw_eps_status nw_status rf_status port1 port2 port3 port4.
           tcp_connection_test dev
             (com_port (telemetry_while clock dev i s rf_command nw_eps_command nw_command))
             tcp_connect_commands message_to_server message_from_server socket_commands
           = (tcp_status, port1)
         \<and> check_network_status dev port1 nw_eps_command = (nw_eps_status, port2)
         \<and> check_network_status dev port2 nw_command = (nw_status, port3)
         \<and> check_rf_status dev port3 rf_command = (rf_status, port4)
         \<and> modem_log_file (telemetry_while clock dev n s rf_command nw_eps_command nw_command)
             ! (length (modem_log_file s) + i)
           = clock (clock_reads s + i) @ '':'' @ rf_status @ '':'' @ tcp_status @ '':''
             @ nw_eps_status @ '':'' @ nw_status @ [CHR 0x0A]
         \<and> (\<forall>c \<in> set (rf_status @ tcp_status @ nw_eps_status @ nw_status). \<not> is_linebreak c)
         \<and> length (modem_log_file
                     (telemetry_while clock dev n s rf_command nw_eps_command nw_command))
           = length (modem_log_file s) + n"
proof -
  let ?si = "telemetry_while clock dev i s rf_command nw_eps_command nw_command"
  let ?t = "tcp_connection_test dev (com_port ?si) tcp_connect_commands message_to_server
              message_from_server socket_commands"
  let ?e = "check_network_status dev (snd ?t) nw_eps_command"
  let ?n = "check_network_status dev (snd ?e) nw_command"
  let ?r = "check_rf_status dev (snd ?n) rf_command"
  have t: "?t = (fst ?t, snd ?t)" and e: "?e = (fst ?e, snd ?e)"
    and n: "?n = (fst ?n, snd ?n)" and r: "?r = (fst ?r, snd ?r)"
    by simp_all
  have "last (modem_log_file (telemetry_pass clock dev ?si rf_command nw_eps_command nw_command))
        = clock (clock_reads ?si) @ '':'' @ fst ?r @ '':'' @ fst ?t @ '':''
          @ fst ?e @ '':'' @ fst ?n @ [CHR 0x0A]"
    by (simp add: telemetry_pass_eq Let_def)
  then have line: "modem_log_file
            (telemetry_while clock dev n s rf_command nw_eps_command nw_command)
             ! (length (modem_log_file s) + i)
           = clock (clock_reads s + i) @ '':'' @ fst ?r @ '':'' @ fst ?t @ '':''
             @ fst ?e @ '':'' @ fst ?n @ [CHR 0x0A]"
    by (simp only: telemetry_while_nth [OF assms] telemetry_while_clock)
  have clean: "\<forall>c \<in> set (fst ?r @ fst ?t @ fst ?e @ fst ?n). \<not> is_linebreak c"
    using check_rf_status_clean [of dev "snd ?n" rf_command]
      tcp_connection_test_clean [of dev "com_port ?si" tcp_connect_commands message_to_server
        message_from_server socket_commands]
      check_network_status_clean [of dev "snd ?t" nw_eps_command]
      check_network_status_clean [of dev "snd ?e" nw_command]
    by (simp add: ball_Un)
  from telemetry_while_log [of clock dev n s rf_command nw_eps_command nw_command]
  have len: "length (modem_log_file
                     (telemetry_while clock dev n s rf_command nw_eps_command nw_command))
           = length (modem_log_file s) + n"
    by auto
  from t e n r line clean len show ?thesis by blast
qed

theorem telemetry_record_format_witness:
  "(0::nat) < 1
   \<and> modem_log_file
       (telemetry_while (\<lambda>k. ''2024-05-01 10:00:00'')
          (\<lambda>k. if k = 5 then Some (''#SRECV: 1,11'' @ [CHR 0x0D, CHR 0x0A] @ ''TCP_TEST_OK'')
                else if k = 6 then Some ''#SI: 1,11,11,0,0''
                else if k = 7 then Some ''#SS: 1,2''
                else if k = 8 then Some ''+CEREG: 0,5''
                else if k = 9 then Some ''+CREG: 0,5''
                else if k = 10 then Some ''#RFSTS:001,100,-90,-95,-10.0''
                else Some ''OK'')
          1 \<lparr>com_port = \<lparr>written = []\<rparr>, clock_reads = 0, modem_log_file = []\<rparr>
          rf_status_command nw_eps_reg_status nw_reg_status) ! 0
     = ''2024-05-01 10:00:00'' @ '':'' @ ''#RFSTS:001,100,-90,-95,-10.0'' @ '':''
       @ ''#MSG: TCP_TEST_OK #SI: 1,11,11,0,0 #SS: 1,2'' @ '':'' @ ''+CEREG: 0,5'' @ '':''
       @ ''+CREG: 0,5'' @ [CHR 0x0A]"
proof -
  let ?dev = "\<lambda>k::nat. if k = 5 then Some (''#SRECV: 1,11'' @ [CHR 0x0D, CHR 0x0A] @ ''TCP_TEST_OK'')
                else if k = 6 then Some ''#SI: 1,11,11,0,0''
                else if k = 7 then Some ''#SS: 1,2''
                else if k = 8 then Some ''+CEREG: 0,5''
                else if k = 9 then Some ''+CREG: 0,5''
                else if k = 10 then Some ''#RFSTS:001,100,-90,-95,-10.0''
                else Some ''OK''"
  let ?clock = "\<lambda>k::nat. ''2024-05-01 10:00:00''"
  let ?s = "\<lparr>com_port = \<lparr>written = []\<rparr>, clock_reads = 0, modem_log_file = []\<rparr>"
  let ?probe = "tcp_connect_commands @ message_to_server @ [message_from_server]
                @ socket_commands"
  let ?pa = "\<lparr>written = map wire ?probe\<rparr>"
  let ?pb = "\<lparr>written = map wire (?probe @ [nw_eps_reg_status])\<rparr>"
  let ?pc = "\<lparr>written = map wire (?probe @ [nw_eps_reg_status, nw_reg_status])\<rparr>"
  let ?pd = "\<lparr>written = map wire (?probe @ [nw_eps_reg_status, nw_reg_status,
                                           rf_status_command])\<rparr>"
  have h: "(0::nat) < 1" by simp
  have e1: "tcp_connection_test ?dev \<lparr>written = []\<rparr> tcp_connect_commands message_to_server
              message_from_server socket_commands
            = (''#MSG: TCP_TEST_OK #SI: 1,11,11,0,0 #SS: 1,2'', ?pa)"
    unfolding tcp_connection_test_eq
    by (simp add: reply_def tcp_connect_commands_def message_to_server_def
        message_from_server_def socket_commands_def msg_in_response_def
        com_port_read_write_eq strip_def isspace_def splitlines_def is_linebreak_def)
  have e2: "check_network_status ?dev ?pa nw_eps_reg_status = (''+CEREG: 0,5'', ?pb)"
    by (simp add: check_network_status_def reply_def tcp_connect_commands_def
        message_to_server_def socket_commands_def
        com_port_read_write_eq strip_def isspace_def splitlines_def is_linebreak_def)
  have e3: "check_network_status ?dev ?pb nw_reg_status = (''+CREG: 0,5'', ?pc)"
    by (simp add: check_network_status_def reply_def tcp_connect_commands_def
        message_to_server_def socket_commands_def
        com_port_read_write_eq strip_def isspace_def splitlines_def is_linebreak_def)
  have e4: "check_rf_status ?dev ?pc rf_status_command
            = (''#RFSTS:001,100,-90,-95,-10.0'', ?pd)"
    by (simp add: check_rf_status_def reply_def tcp_connect_commands_def
        message_to_server_def socket_commands_def
        com_port_read_write_eq strip_def isspace_def splitlines_def is_linebreak_def)
  from telemetry_record_format [OF h, where dev = ?dev and clock = ?clock and s = ?s
      and rf_command = rf_status_command and nw_eps_command = nw_eps_reg_status
      and nw_command = nw_reg_status]
  obtain tcp_status nw_eps_status nw_status rf_status port1 port2 port3 port4 where
    a: "tcp_connection_test ?dev \<lparr>written = []\<rparr> tcp_connect_commands message_to_server
          message_from_server socket_commands = (tcp_status, port1)"
    and b: "check_network_status ?dev port1 nw_eps_reg_status = (nw_eps_status, port2)"
    and c: "check_network_status ?dev port2 nw_reg_status = (nw_status, port3)"
    and d: "check_rf_status ?dev port3 rf_status_command = (rf_status, port4)"
    and line: "modem_log_file (telemetry_while ?clock ?dev 1 ?s rf_status_command
                 nw_eps_reg_status nw_reg_status) ! 0
               = ''2024-05-01 10:00:00'' @ '':'' @ rf_status @ '':'' @ tcp_status @ '':''
                 @ nw_eps_status @ '':'' @ nw_status @ [CHR 0x0A]"
    by auto
  from a e1 have t: "tcp_status = ''#MSG: TCP_TEST_OK #SI: 1,11,11,0,0 #SS: 1,2''"
    and p1: "port1 = ?pa" by simp_all
  from b e2 have e: "nw_eps_status = ''+CEREG: 0,5''" and p2: "port2 = ?pb"
    unfolding p1 by simp_all
  from c e3 have n: "nw_status = ''+CREG: 0,5''" and p3: "port3 = ?pc"
    unfolding p2 by simp_all
  from d e4 have r: "rf_status = ''#RFSTS:001,100,-90,-95,-10.0''"
    unfolding p3 by simp
  from line have "modem_log_file (telemetry_while ?clock ?dev 1 ?s rf_status_command
                 nw_eps_reg_status nw_reg_status) ! 0
     = ''2024-05-01 10:00:00'' @ '':'' @ ''#RFSTS:001,100,-90,-95,-10.0'' @ '':''
       @ ''#MSG: TCP_TEST_OK #SI: 1,11,11,0,0 #SS: 1,2'' @ '':'' @ ''+CEREG: 0,5'' @ '':''
       @ ''+CREG: 0,5'' @ [CHR 0x0A]"
    unfolding t e n r .
  with h show ?thesis by (intro conjI)
qed

end
